theory Spec2Isabelle
  imports Main "HOL-Library.AList"
begin

section \<open>PubChemResolveTool: the cache and alias-resolution engine\<close>

text \<open>
  A shallow embedding of \<^verbatim>\<open>First_Cheminformatics_agent/tools/pubchem_search.py\<close>.
  One tool instance is modelled: its cache dictionary, its two alias dictionaries, the
  cache file and a trace of the effects the methods perform. The remote service
  (\<^verbatim>\<open>pubchempy.get_compounds\<close>) is a parameter of the model.
\<close>

subsection \<open>Python strings\<close>

text \<open>
  A Python string is modelled as a \<^typ>\<open>string\<close>, each character standing for the code
  point of the same number (the Latin-1 range). \<^verbatim>\<open>str.isspace\<close> and \<^verbatim>\<open>str.lower\<close> are
  written out for that range.
\<close>

definition isspace :: "char \<Rightarrow> bool" where
  "isspace c = (of_char c \<in> {9, 10, 11, 12, 13, 28, 29, 30, 31, 32, 133, 160 :: nat})"

definition strip :: "string \<Rightarrow> string" where
  "strip s = rev (dropWhile isspace (rev (dropWhile isspace s)))"

definition lower_char :: "char \<Rightarrow> char" where
  "lower_char c =
     (let n = of_char c :: nat
      in if (65 \<le> n \<and> n \<le> 90) \<or> (192 \<le> n \<and> n \<le> 222 \<and> n \<noteq> 215)
         then char_of (n + 32) else c)"

definition lower :: "string \<Rightarrow> string" where
  "lower s = map lower_char s"

text \<open>\<^verbatim>\<open>_norm_name\<close>: \<^verbatim>\<open>s.strip().lower()\<close>.\<close>

definition norm_name :: "string \<Rightarrow> string" where
  "norm_name s = lower (strip s)"

text \<open>\<^verbatim>\<open>str(n)\<close> for an integer: decimal digits, a minus sign for negatives.\<close>

fun digits :: "nat \<Rightarrow> string" where
  "digits n = (if n < 10 then [char_of (48 + n)] else digits (n div 10) @ [char_of (48 + n mod 10)])"

declare digits.simps [simp del]

definition str_int :: "int \<Rightarrow> string" where
  "str_int i = (if i < 0 then CHR ''-'' # digits (nat (- i)) else digits (nat i))"

subsection \<open>Records\<close>

text \<open>
  A value of the \<^verbatim>\<open>cid\<close> field: \<^verbatim>\<open>None\<close>, a string, or an integer (the type of
  \<^verbatim>\<open>Compound.cid\<close> in pubchempy). The other five fields are strings or \<^verbatim>\<open>None\<close>.
\<close>

datatype pyval = PNone | PStr string | PInt int

record canonical_record =
  iupac_name :: "string option"
  inchikey :: "string option"
  smiles :: "string option"
  common_name :: "string option"
  cid :: pyval
  formula :: "string option"

text \<open>The attributes of a pubchempy compound that \<^verbatim>\<open>_fetch_from_pubchem\<close> reads;
  \<^verbatim>\<open>None\<close> also stands for a missing attribute (\<^verbatim>\<open>getattr(c, name, None)\<close>).\<close>

record compound =
  c_iupac_name :: "string option"
  c_inchikey :: "string option"
  c_isomeric_smiles :: "string option"
  c_smiles :: "string option"
  c_synonyms :: "string list option"
  c_cid :: pyval
  c_molecular_formula :: "string option"

text \<open>\<^verbatim>\<open>x or ""\<close> on an optional string, and on a \<^verbatim>\<open>cid\<close> value (0 is falsy).\<close>

definition or_empty :: "string option \<Rightarrow> string" where
  "or_empty x = (case x of None \<Rightarrow> [] | Some s \<Rightarrow> s)"

definition or_empty_val :: "pyval \<Rightarrow> pyval" where
  "or_empty_val x =
     (case x of PNone \<Rightarrow> PStr [] | PStr s \<Rightarrow> PStr s
      | PInt i \<Rightarrow> if i = 0 then PStr [] else PInt i)"

text \<open>\<^verbatim>\<open>a or b\<close> on optional strings: the first truthy one, else the second.\<close>

definition py_or :: "string option \<Rightarrow> string option \<Rightarrow> string option" where
  "py_or a b = (case a of None \<Rightarrow> b | Some s \<Rightarrow> if s = [] then b else Some s)"

text \<open>\<^verbatim>\<open>(synonyms or [None])[0]\<close>.\<close>

definition first_synonym :: "string list option \<Rightarrow> string option" where
  "first_synonym x = (case x of None \<Rightarrow> None | Some [] \<Rightarrow> None | Some (s # _) \<Rightarrow> Some s)"

definition record_of_compound :: "compound \<Rightarrow> canonical_record" where
  "record_of_compound c =
     \<lparr> iupac_name = Some (or_empty (c_iupac_name c)),
       inchikey = Some (or_empty (c_inchikey c)),
       smiles = Some (or_empty (py_or (c_isomeric_smiles c) (c_smiles c))),
       common_name = Some (or_empty (first_synonym (c_synonyms c))),
       cid = or_empty_val (c_cid c),
       formula = Some (or_empty (c_molecular_formula c)) \<rparr>"

definition negative_record :: canonical_record where
  "negative_record =
     \<lparr> iupac_name = None, inchikey = None, smiles = None, common_name = None,
       cid = PNone, formula = None \<rparr>"

subsection \<open>\<^verbatim>\<open>json.dumps(rec, indent=2)\<close>\<close>

definition hex_digit :: "nat \<Rightarrow> char" where
  "hex_digit n = (if n < 10 then char_of (48 + n) else char_of (87 + n))"

definition json_escape :: "char \<Rightarrow> string" where
  "json_escape c =
     (let n = of_char c :: nat
      in if n = 34 then [CHR 0x5C, CHR 0x22]
         else if n = 92 then [CHR 0x5C, CHR 0x5C]
         else if n = 10 then [CHR 0x5C, CHR ''n'']
         else if n = 13 then [CHR 0x5C, CHR ''r'']
         else if n = 9 then [CHR 0x5C, CHR ''t'']
         else if n = 8 then [CHR 0x5C, CHR ''b'']
         else if n = 12 then [CHR 0x5C, CHR ''f'']
         else if 32 \<le> n \<and> n \<le> 126 then [c]
         else [CHR 0x5C, CHR ''u'', CHR ''0'', CHR ''0'', hex_digit (n div 16), hex_digit (n mod 16)])"

definition json_string :: "string \<Rightarrow> string" where
  "json_string s = CHR 0x22 # concat (map json_escape s) @ [CHR 0x22]"

definition json_opt :: "string option \<Rightarrow> string" where
  "json_opt x = (case x of None \<Rightarrow> ''null'' | Some s \<Rightarrow> json_string s)"

definition json_val :: "pyval \<Rightarrow> string" where
  "json_val x = (case x of PNone \<Rightarrow> ''null'' | PStr s \<Rightarrow> json_string s | PInt i \<Rightarrow> str_int i)"

definition json_item :: "string \<Rightarrow> string \<Rightarrow> string" where
  "json_item k v = ''  '' @ json_string k @ '': '' @ v"

definition json_dumps :: "canonical_record \<Rightarrow> string" where
  "json_dumps r =
     ''{'' @ [CHR 0x0A] @
     json_item ''iupac_name'' (json_opt (iupac_name r)) @ '','' @ [CHR 0x0A] @
     json_item ''inchikey'' (json_opt (inchikey r)) @ '','' @ [CHR 0x0A] @
     json_item ''smiles'' (json_opt (smiles r)) @ '','' @ [CHR 0x0A] @
     json_item ''common_name'' (json_opt (common_name r)) @ '','' @ [CHR 0x0A] @
     json_item ''cid'' (json_val (cid r)) @ '','' @ [CHR 0x0A] @
     json_item ''formula'' (json_opt (formula r)) @ [CHR 0x0A] @ ''}''"

subsection \<open>The state of a tool instance\<close>

text \<open>
  The cache is a Python dictionary, iterated in insertion order by the rebuild: an
  association list, written with \<^const>\<open>AList.update\<close> (replace in place, else append).
  The alias dictionaries are only ever looked up: maps. They are class attributes in
  the source, shared by every instance, while each instance assigns its own cache; with
  the one instance modelled here they are fields of its state. The cache file is held
  by what it parses to. The trace records each call of \<^verbatim>\<open>_fetch_from_pubchem\<close>, each store
  assignment, each rebuild and each write of the file, in the order they happen.
\<close>

type_synonym store = "(string \<times> canonical_record) list"

datatype file_state = FileAbsent | FileCorrupt | FileJson store

datatype event = Fetch string | StoreSet string | Rebuild | FileWrite

record state =
  cache :: store
  alias_cs :: "string \<rightharpoonup> string"
  alias_ci :: "string \<rightharpoonup> string"
  cache_file :: file_state
  trace :: "event list"

datatype error = ValueError string

subsection \<open>Cache helpers\<close>

text \<open>\<^verbatim>\<open>str(cid).strip() if cid not in (None, "") else ""\<close>.\<close>

definition cid_str :: "pyval \<Rightarrow> string" where
  "cid_str x =
     (case x of PNone \<Rightarrow> [] | PStr s \<Rightarrow> if s = [] then [] else strip s
      | PInt i \<Rightarrow> strip (str_int i))"

text \<open>
  The two alias sets of one entry, after \<^verbatim>\<open>filter(None, ...)\<close>. Every alias of an entry
  is assigned the same written key, so the iteration order of the Python set does not
  show in the dictionaries.
\<close>

definition ci_aliases :: "string \<Rightarrow> canonical_record \<Rightarrow> string list" where
  "ci_aliases written v =
     filter (\<lambda>a. a \<noteq> [])
       [written, strip (or_empty (iupac_name v)), strip (or_empty (common_name v))]"

definition cs_aliases :: "canonical_record \<Rightarrow> string list" where
  "cs_aliases v =
     filter (\<lambda>a. a \<noteq> [])
       [strip (or_empty (inchikey v)), strip (or_empty (smiles v)),
        strip (or_empty (formula v)), cid_str (cid v)]"

fun rebuild_loop ::
  "store \<Rightarrow> (string \<rightharpoonup> string) \<times> (string \<rightharpoonup> string) \<Rightarrow>
   (string \<rightharpoonup> string) \<times> (string \<rightharpoonup> string)" where
  "rebuild_loop [] (cs, ci) = (cs, ci)"
| "rebuild_loop ((written, v) # rest) (cs, ci) =
     rebuild_loop rest
       (fold (\<lambda>alias m. m(alias \<mapsto> written)) (cs_aliases v) cs,
        fold (\<lambda>alias m. m(norm_name alias \<mapsto> written)) (ci_aliases written v) ci)"

definition rebuild_alias_indexes :: "state \<Rightarrow> state" where
  "rebuild_alias_indexes s =
     (let (cs, ci) = rebuild_loop (cache s) (Map.empty, Map.empty)
      in s\<lparr>alias_cs := cs, alias_ci := ci, trace := trace s @ [Rebuild]\<rparr>)"

text \<open>\<^verbatim>\<open>_load_cache\<close>, run by the constructor.\<close>

definition load_cache :: "state \<Rightarrow> state" where
  "load_cache s =
     rebuild_alias_indexes
       (case cache_file s of
          FileAbsent \<Rightarrow> s\<lparr>cache := [], cache_file := FileJson [], trace := trace s @ [FileWrite]\<rparr>
        | FileJson c \<Rightarrow> s\<lparr>cache := c\<rparr>
        | FileCorrupt \<Rightarrow> s\<lparr>cache := []\<rparr>)"

definition persist_cache :: "state \<Rightarrow> state" where
  "persist_cache s = s\<lparr>cache_file := FileJson (cache s), trace := trace s @ [FileWrite]\<rparr>"

definition add_to_cache :: "string \<Rightarrow> canonical_record \<Rightarrow> state \<Rightarrow> state" where
  "add_to_cache written r s =
     persist_cache
       (rebuild_alias_indexes
          (s\<lparr>cache := AList.update written r (cache s), trace := trace s @ [StoreSet written]\<rparr>))"

text \<open>\<^verbatim>\<open>written = d.get(k); if written: ...\<close>: a missing key and an empty written key
  both fall through.\<close>

definition get_truthy :: "(string \<rightharpoonup> string) \<Rightarrow> string \<Rightarrow> string option" where
  "get_truthy d k = (case d k of None \<Rightarrow> None | Some w \<Rightarrow> if w = [] then None else Some w)"

definition lookup_cache :: "string \<Rightarrow> state \<Rightarrow> canonical_record option" where
  "lookup_cache query s =
     (if strip query = [] then None
      else let q = strip query in
        case get_truthy (alias_cs s) q of
          Some written \<Rightarrow> map_of (cache s) written
        | None \<Rightarrow>
            (case get_truthy (alias_ci s) (norm_name q) of
               Some written \<Rightarrow> map_of (cache s) written
             | None \<Rightarrow> map_of (cache s) q))"

subsection \<open>PubChem fetch\<close>

text \<open>
  \<^verbatim>\<open>pcp.get_compounds(token, ns)\<close> is the parameter \<open>pcp\<close>: \<^const>\<open>None\<close> when the call
  raises, else the list of compounds.
\<close>

type_synonym pubchem = "string \<Rightarrow> string \<Rightarrow> compound list option"

definition namespaces :: "string list" where
  "namespaces = [''inchikey'', ''smiles'', ''formula'', ''name'', ''cid'']"

fun fetch_loop :: "pubchem \<Rightarrow> string \<Rightarrow> string list \<Rightarrow> canonical_record option" where
  "fetch_loop pcp token [] = None"
| "fetch_loop pcp token (ns # rest) =
     (case pcp token ns of
        None \<Rightarrow> fetch_loop pcp token rest
      | Some [] \<Rightarrow> fetch_loop pcp token rest
      | Some (c # _) \<Rightarrow> Some (record_of_compound c))"

definition fetch_from_pubchem :: "pubchem \<Rightarrow> string \<Rightarrow> canonical_record option" where
  "fetch_from_pubchem pcp token = fetch_loop pcp token namespaces"

subsection \<open>Tool interface\<close>

definition field_names :: "string list" where
  "field_names = [''iupac_name'', ''inchikey'', ''smiles'', ''common_name'', ''cid'', ''formula'']"

text \<open>\<^verbatim>\<open>rec.get(output_format)\<close> for one of the six field names.\<close>

definition get_field :: "canonical_record \<Rightarrow> string \<Rightarrow> pyval" where
  "get_field r f =
     (let opt = (\<lambda>x. case x of None \<Rightarrow> PNone | Some s \<Rightarrow> PStr s)
      in if f = ''iupac_name'' then opt (iupac_name r)
         else if f = ''inchikey'' then opt (inchikey r)
         else if f = ''smiles'' then opt (smiles r)
         else if f = ''common_name'' then opt (common_name r)
         else if f = ''cid'' then cid r
         else if f = ''formula'' then opt (formula r)
         else PNone)"

definition no_result_msg :: "string \<Rightarrow> string" where
  "no_result_msg query = ''No PubChem result found for: '' @ query"

definition no_value_msg :: "string \<Rightarrow> string \<Rightarrow> string" where
  "no_value_msg output_format query =
     ''No value for '' @ [CHR 0x27] @ output_format @ [CHR 0x27] @ '' found for: '' @ query"

definition format_error :: error where
  "format_error = ValueError
     (''output_format must be one of {'' @
      [CHR 0x27] @ ''iupac_name'' @ [CHR 0x27] @ '','' @
      [CHR 0x27] @ ''inchikey'' @ [CHR 0x27] @ '','' @
      [CHR 0x27] @ ''smiles'' @ [CHR 0x27] @ '','' @
      [CHR 0x27] @ ''common_name'' @ [CHR 0x27] @ '','' @
      [CHR 0x27] @ ''cid'' @ [CHR 0x27] @ '','' @
      [CHR 0x27] @ ''formula'' @ [CHR 0x27] @ '','' @
      [CHR 0x27] @ ''json'' @ [CHR 0x27] @ ''}'')"

definition query_error :: error where
  "query_error = ValueError ''Query must be a non-empty string.''"

text \<open>Step 3 of \<^verbatim>\<open>forward\<close>: render the record.\<close>

definition render :: "canonical_record \<Rightarrow> string \<Rightarrow> string \<Rightarrow> error + string" where
  "render r output_format query =
     (if output_format = ''json'' then Inr (json_dumps r)
      else if output_format \<notin> set field_names then Inl format_error
      else case get_field r output_format of
             PNone \<Rightarrow> Inr (no_value_msg output_format query)
           | PStr v \<Rightarrow> if v = [] then Inr (no_value_msg output_format query) else Inr v
           | PInt i \<Rightarrow> Inr (str_int i))"

text \<open>
  \<^verbatim>\<open>forward(query, output_format)\<close>: the result (an error for a raised exception) and
  the state the call leaves. \<^verbatim>\<open>output_format\<close> is nullable;
  \<^verbatim>\<open>output_format or "json"\<close> turns \<^verbatim>\<open>None\<close> and the empty string into \<^verbatim>\<open>"json"\<close>.
\<close>

definition default_format :: "string option \<Rightarrow> string" where
  "default_format output_format =
     (case output_format of None \<Rightarrow> ''json'' | Some f \<Rightarrow> if f = [] then ''json'' else f)"

definition forward :: "pubchem \<Rightarrow> string \<Rightarrow> string option \<Rightarrow> state \<Rightarrow> (error + string) \<times> state" where
  "forward pcp query output_format s =
     (if strip query = [] then (Inl query_error, s)
      else let fmt = default_format output_format in
        case lookup_cache query s of
          Some r \<Rightarrow> (render r fmt query, s)
        | None \<Rightarrow>
            (let s1 = s\<lparr>trace := trace s @ [Fetch query]\<rparr> in
             case fetch_from_pubchem pcp query of
               None \<Rightarrow> (Inr (no_result_msg query), add_to_cache query negative_record s1)
             | Some fetched \<Rightarrow> (render fetched fmt query, add_to_cache query fetched s1)))"

subsection \<open>Well-formed states\<close>

text \<open>
  The alias dictionaries are in sync when they are what the rebuild computes from the
  cache. A state is well formed when, besides, the written keys are pairwise different
  (a dictionary) and none is blank. The constructor and every \<^const>\<open>forward\<close> call
  leave such a state: \<^const>\<open>forward\<close> only inserts under a query it has checked to be
  non-blank.
\<close>

definition in_sync :: "state \<Rightarrow> bool" where
  "in_sync s \<longleftrightarrow> (alias_cs s, alias_ci s) = rebuild_loop (cache s) (Map.empty, Map.empty)"

definition wf_state :: "state \<Rightarrow> bool" where
  "wf_state s \<longleftrightarrow>
     distinct (map fst (cache s)) \<and> (\<forall>k \<in> set (map fst (cache s)). strip k \<noteq> []) \<and> in_sync s"

text \<open>
  The lookup as the specification words it: the case-sensitive table at the trimmed
  query, then the case-insensitive table at the trimmed, lowercased query, then the
  store at the trimmed query.
\<close>

definition spec_lookup :: "string \<Rightarrow> state \<Rightarrow> canonical_record option" where
  "spec_lookup query s =
     (case alias_cs s (strip query) of
        Some written \<Rightarrow> map_of (cache s) written
      | None \<Rightarrow>
          (case alias_ci s (lower (strip query)) of
             Some written \<Rightarrow> map_of (cache s) written
           | None \<Rightarrow> map_of (cache s) (strip query)))"

subsection \<open>Aliases as the specification words them\<close>

text \<open>
  A structural alias of a record is the trimmed value of its \<^verbatim>\<open>inchikey\<close>, \<^verbatim>\<open>smiles\<close> or
  \<^verbatim>\<open>formula\<close> field, or its stringified \<^verbatim>\<open>cid\<close>; a name alias of an entry is the
  normalised (trimmed, lowercased) written key, \<^verbatim>\<open>iupac_name\<close> or \<^verbatim>\<open>common_name\<close>. A field
  that is null, empty or blank gives no alias.
\<close>

definition field_alias :: "string option \<Rightarrow> string \<Rightarrow> bool" where
  "field_alias f a = (case f of None \<Rightarrow> False | Some x \<Rightarrow> strip x \<noteq> [] \<and> a = strip x)"

definition cid_alias :: "pyval \<Rightarrow> string \<Rightarrow> bool" where
  "cid_alias c a =
     (case c of PNone \<Rightarrow> False
      | PStr x \<Rightarrow> strip x \<noteq> [] \<and> a = strip x
      | PInt i \<Rightarrow> strip (str_int i) \<noteq> [] \<and> a = strip (str_int i))"

definition structural_alias :: "canonical_record \<Rightarrow> string \<Rightarrow> bool" where
  "structural_alias r a \<longleftrightarrow>
     field_alias (inchikey r) a \<or> field_alias (smiles r) a \<or> field_alias (formula r) a \<or>
     cid_alias (cid r) a"

definition field_name_alias :: "string option \<Rightarrow> string \<Rightarrow> bool" where
  "field_name_alias f a =
     (case f of None \<Rightarrow> False | Some x \<Rightarrow> strip x \<noteq> [] \<and> a = lower (strip x))"

definition name_alias :: "string \<Rightarrow> canonical_record \<Rightarrow> string \<Rightarrow> bool" where
  "name_alias written r a \<longleftrightarrow>
     (written \<noteq> [] \<and> a = lower (strip written)) \<or>
     field_name_alias (iupac_name r) a \<or> field_name_alias (common_name r) a"

text \<open>
  The owner of an alias: the written key of the last entry of the store, in insertion
  order, that claims it (the rebuild assigns in that order, so the last assignment
  stays).
\<close>

definition owner :: "(string \<Rightarrow> canonical_record \<Rightarrow> bool) \<Rightarrow> store \<Rightarrow> string option" where
  "owner claims c =
     (case find (\<lambda>(w, r). claims w r) (rev c) of None \<Rightarrow> None | Some (w, r) \<Rightarrow> Some w)"

text \<open>
  The invariant of the alias tables. Each table maps an alias to its owner. Hence every
  alias of either table maps to the written key of an entry of the store that has it as
  an alias in the sense above, and is not empty in the case-sensitive table; every
  non-empty written key has its normalised form in the case-insensitive table, owned by
  an entry that claims it, and by the key itself when no entry under another key claims
  it; the empty written key is never its own alias: an alias maps to it only through
  the \<^verbatim>\<open>iupac_name\<close> or \<^verbatim>\<open>common_name\<close> of its entry.
\<close>

definition alias_tables_ok :: "state \<Rightarrow> bool" where
  "alias_tables_ok s \<longleftrightarrow>
     (\<forall>a. alias_cs s a = owner (\<lambda>w r. structural_alias r a) (cache s)) \<and>
     (\<forall>a. alias_ci s a = owner (\<lambda>w r. name_alias w r a) (cache s)) \<and>
     (\<forall>a w. alias_cs s a = Some w \<longrightarrow>
        a \<noteq> [] \<and> (\<exists>r. (w, r) \<in> set (cache s) \<and> structural_alias r a)) \<and>
     (\<forall>a w. alias_ci s a = Some w \<longrightarrow>
        (\<exists>r. (w, r) \<in> set (cache s) \<and> name_alias w r a)) \<and>
     (\<forall>(w, r) \<in> set (cache s). w \<noteq> [] \<longrightarrow>
        (\<exists>w' r'. alias_ci s (lower (strip w)) = Some w' \<and> (w', r') \<in> set (cache s) \<and>
                 name_alias w' r' (lower (strip w))) \<and>
        ((\<forall>(w', r') \<in> set (cache s). w' \<noteq> w \<longrightarrow> \<not> name_alias w' r' (lower (strip w)))
           \<longrightarrow> alias_ci s (lower (strip w)) = Some w)) \<and>
     (\<forall>a. alias_ci s a = Some [] \<longrightarrow>
        (\<exists>r. ([], r) \<in> set (cache s) \<and>
             (field_name_alias (iupac_name r) a \<or> field_name_alias (common_name r) a)))"

subsection \<open>Example runs\<close>

text \<open>A tool constructed where no cache file exists, and stub services.\<close>

definition new_tool :: state where
  "new_tool =
     load_cache \<lparr>cache = [], alias_cs = Map.empty, alias_ci = Map.empty,
                 cache_file = FileAbsent, trace = []\<rparr>"

definition no_compounds :: pubchem where
  "no_compounds token ns = Some []"

definition water :: compound where
  "water =
     \<lparr> c_iupac_name = Some ''oxidane'', c_inchikey = Some ''XLYOFNOQVPJJNP-UHFFFAOYSA-N'',
       c_isomeric_smiles = None, c_smiles = Some ''O'', c_synonyms = Some [''Water'', ''H2O''],
       c_cid = PInt 962, c_molecular_formula = Some ''H2O'' \<rparr>"

definition water_record :: canonical_record where
  "water_record =
     \<lparr> iupac_name = Some ''oxidane'', inchikey = Some ''XLYOFNOQVPJJNP-UHFFFAOYSA-N'',
       smiles = Some ''O'', common_name = Some ''Water'', cid = PInt 962,
       formula = Some ''H2O'' \<rparr>"

text \<open>A service that knows water by name only, and raises in the \<^verbatim>\<open>cid\<close> namespace.\<close>

definition water_service :: pubchem where
  "water_service token ns =
     (if ns = ''cid'' then None
      else if ns = ''name'' \<and> token = ''water'' then Some [water] else Some [])"

definition water_tool :: state where
  "water_tool = snd (forward water_service ''water'' (Some ''smiles'') new_tool)"

text \<open>A service that finds nothing for one token, whatever the namespace, leaves a
  negative entry.\<close>

definition unobtainium_tool :: state where
  "unobtainium_tool = snd (forward no_compounds ''unobtainium999'' (Some ''json'') new_tool)"

text \<open>Two compounds with the same formula, and a service that answers the formula with
  the first and the name of the second with the second.\<close>

definition compound_a :: compound where
  "compound_a =
     \<lparr> c_iupac_name = Some ''ethanol'', c_inchikey = Some ''ABC-123'',
       c_isomeric_smiles = None, c_smiles = Some ''CCO'', c_synonyms = Some [''Ethanol''],
       c_cid = PStr ''702'', c_molecular_formula = Some ''C2H6O'' \<rparr>"

definition compound_b :: compound where
  "compound_b =
     \<lparr> c_iupac_name = Some ''methoxymethane'', c_inchikey = Some ''DEF-456'',
       c_isomeric_smiles = None, c_smiles = Some ''COC'', c_synonyms = Some [''Dimethyl ether''],
       c_cid = PStr ''8254'', c_molecular_formula = Some ''C2H6O'' \<rparr>"

definition isomer_service :: pubchem where
  "isomer_service token ns =
     (if ns = ''formula'' \<and> token = ''C2H6O'' then Some [compound_a]
      else if ns = ''inchikey'' \<and> token = ''ABC-123'' then Some [compound_a]
      else if ns = ''name'' \<and> token = ''dimethyl ether'' then Some [compound_b]
      else Some [])"

definition isomer_tool :: state where
  "isomer_tool =
     snd (forward isomer_service ''dimethyl ether'' (Some ''json'')
           (snd (forward isomer_service ''C2H6O'' (Some ''json'') new_tool)))"

definition inchikey_tool :: state where
  "inchikey_tool = snd (forward isomer_service ''ABC-123'' (Some ''json'') new_tool)"

text \<open>A service that knows water by its name and by its registry number.\<close>

definition cas_service :: pubchem where
  "cas_service token ns =
     (if ns = ''name'' \<and> (token = ''water'' \<or> token = ''7732-18-5'') then Some [water]
      else Some [])"

definition cas_tool :: state where
  "cas_tool =
     snd (forward cas_service ''7732-18-5'' (Some ''json'')
           (snd (forward cas_service ''water'' (Some ''json'') new_tool)))"

text \<open>A tool constructed on a cache file that holds an entry under the empty key, whose
  \<^verbatim>\<open>common_name\<close> is the first entry's written key in another case.\<close>

definition shadow_record :: canonical_record where
  "shadow_record =
     \<lparr> iupac_name = None, inchikey = Some ''ZZZ-1'', smiles = None,
       common_name = Some ''Water'', cid = PNone, formula = None \<rparr>"

definition blank_key_tool :: state where
  "blank_key_tool =
     load_cache \<lparr>cache = [], alias_cs = Map.empty, alias_ci = Map.empty,
                 cache_file = FileJson [(''water'', water_record), ([], shadow_record)],
                 trace = []\<rparr>"

section \<open>Properties\<close>

subsection \<open>Strings\<close>

lemma dropWhile_rev_dropWhile:
  "dropWhile P (rev (dropWhile P (rev (dropWhile P s)))) = rev (dropWhile P (rev (dropWhile P s)))"
  by (metis (no_types, lifting) Nil_is_rev_conv dropWhile_eq_Nil_conv
    dropWhile_eq_self_iff dropWhile_idem dropWhile_last hd_rev last_rev)

lemma strip_strip [simp]: "strip (strip s) = strip s"
  by (simp add: strip_def dropWhile_rev_dropWhile dropWhile_idem)

lemma lower_eq_Nil [simp]: "lower s = [] \<longleftrightarrow> s = []"
  by (simp add: lower_def)

lemma norm_name_strip [simp]: "norm_name (strip s) = norm_name s"
  by (simp add: norm_name_def)

lemma norm_name_eq_Nil [simp]: "norm_name s = [] \<longleftrightarrow> strip s = []"
  by (simp add: norm_name_def)

lemma strip_Nil [simp]: "strip [] = []"
  by (simp add: strip_def)

lemma strip_nonempty: "strip s \<noteq> [] \<Longrightarrow> s \<noteq> []"
  by auto

subsection \<open>The rebuild loop\<close>

lemma find_append: "find P (xs @ ys) = (case find P xs of None \<Rightarrow> find P ys | Some x \<Rightarrow> Some x)"
  by (induction xs) auto

lemma fold_upd_apply:
  "fold (\<lambda>a m. m(f a \<mapsto> w)) xs m k = (if k \<in> f ` set xs then Some w else m k)"
  by (induction xs arbitrary: m) auto

lemma rebuild_loop_cs:
  "fst (rebuild_loop c (cs, ci)) a =
     (case find (\<lambda>(w, v). a \<in> set (cs_aliases v)) (rev c) of
        Some (w, v) \<Rightarrow> Some w | None \<Rightarrow> cs a)"
proof (induction c arbitrary: cs ci)
  case Nil
  then show ?case by simp
next
  case (Cons e c)
  obtain w v where e: "e = (w, v)" by (cases e)
  show ?case
    using fold_upd_apply[of "\<lambda>x. x" w "cs_aliases v" cs a]
    by (simp add: e Cons.IH find_append split: option.splits)
qed

lemma rebuild_loop_ci:
  "snd (rebuild_loop c (cs, ci)) a =
     (case find (\<lambda>(w, v). a \<in> norm_name ` set (ci_aliases w v)) (rev c) of
        Some (w, v) \<Rightarrow> Some w | None \<Rightarrow> ci a)"
proof (induction c arbitrary: cs ci)
  case Nil
  then show ?case by simp
next
  case (Cons e c)
  obtain w v where e: "e = (w, v)" by (cases e)
  show ?case
    using fold_upd_apply[of norm_name w "ci_aliases w v" ci a]
    by (simp add: e Cons.IH find_append split: option.splits)
qed

lemma find_SomeD: "find P xs = Some x \<Longrightarrow> x \<in> set xs \<and> P x"
  by (auto simp: find_Some_iff)


lemma cs_Some:
  assumes "fst (rebuild_loop c (Map.empty, Map.empty)) a = Some w"
  shows "\<exists>v. (w, v) \<in> set c \<and> a \<in> set (cs_aliases v)"
proof -
  from assms obtain v where "find (\<lambda>(w, v). a \<in> set (cs_aliases v)) (rev c) = Some (w, v)"
    by (auto simp: rebuild_loop_cs split: option.splits)
  from find_SomeD[OF this] show ?thesis by auto
qed

lemma cs_None:
  "fst (rebuild_loop c (Map.empty, Map.empty)) a = None \<longleftrightarrow>
     (\<forall>(w, v) \<in> set c. a \<notin> set (cs_aliases v))"
proof -
  have "fst (rebuild_loop c (Map.empty, Map.empty)) a = None \<longleftrightarrow>
        find (\<lambda>(w, v). a \<in> set (cs_aliases v)) (rev c) = None"
    by (simp add: rebuild_loop_cs split: option.splits)
  then show ?thesis by (auto simp: find_None_iff)
qed

lemma ci_Some:
  assumes "snd (rebuild_loop c (Map.empty, Map.empty)) a = Some w"
  shows "\<exists>v. (w, v) \<in> set c \<and> a \<in> norm_name ` set (ci_aliases w v)"
proof -
  from assms obtain v where
    "find (\<lambda>(w, v). a \<in> norm_name ` set (ci_aliases w v)) (rev c) = Some (w, v)"
    by (auto simp: rebuild_loop_ci split: option.splits)
  from find_SomeD[OF this] show ?thesis by auto
qed

lemma ci_None:
  "snd (rebuild_loop c (Map.empty, Map.empty)) a = None \<longleftrightarrow>
     (\<forall>(w, v) \<in> set c. a \<notin> norm_name ` set (ci_aliases w v))"
proof -
  have "snd (rebuild_loop c (Map.empty, Map.empty)) a = None \<longleftrightarrow>
        find (\<lambda>(w, v). a \<in> norm_name ` set (ci_aliases w v)) (rev c) = None"
    by (simp add: rebuild_loop_ci split: option.splits)
  then show ?thesis by (auto simp: find_None_iff)
qed

subsection \<open>Well-formed states and the alias tables\<close>

lemma update_fresh: "k \<notin> fst ` set al \<Longrightarrow> AList.update k v al = al @ [(k, v)]"
  by (induction al) auto

lemma set_update_subset: "set (AList.update k v al) \<subseteq> insert (k, v) (set al)"
  by (induction al) auto

lemma in_sync_cs: "in_sync s \<Longrightarrow> alias_cs s = fst (rebuild_loop (cache s) (Map.empty, Map.empty))"
  by (simp add: in_sync_def) (metis fst_conv)

lemma in_sync_ci: "in_sync s \<Longrightarrow> alias_ci s = snd (rebuild_loop (cache s) (Map.empty, Map.empty))"
  by (simp add: in_sync_def) (metis snd_conv)

lemma wf_key_nonblank: "wf_state s \<Longrightarrow> (w, v) \<in> set (cache s) \<Longrightarrow> strip w \<noteq> []"
  by (force simp: wf_state_def)

lemma wf_map_of: "wf_state s \<Longrightarrow> (w, v) \<in> set (cache s) \<Longrightarrow> map_of (cache s) w = Some v"
  by (simp add: wf_state_def)

lemma wf_cs_Some:
  assumes "wf_state s" "alias_cs s a = Some w"
  shows "\<exists>v. (w, v) \<in> set (cache s) \<and> map_of (cache s) w = Some v \<and> a \<in> set (cs_aliases v) \<and> w \<noteq> []"
proof -
  from assms have "fst (rebuild_loop (cache s) (Map.empty, Map.empty)) a = Some w"
    by (simp add: wf_state_def in_sync_cs)
  from cs_Some[OF this] obtain v where v: "(w, v) \<in> set (cache s)" "a \<in> set (cs_aliases v)"
    by blast
  with assms(1) show ?thesis
    using wf_key_nonblank[OF assms(1) v(1)] wf_map_of[OF assms(1) v(1)] by auto
qed

lemma wf_cs_None:
  assumes "wf_state s"
  shows "alias_cs s a = None \<longleftrightarrow> (\<forall>(w, v) \<in> set (cache s). a \<notin> set (cs_aliases v))"
  using assms cs_None[of "cache s" a] by (simp add: wf_state_def in_sync_cs)

lemma wf_ci_Some:
  assumes "wf_state s" "alias_ci s a = Some w"
  shows "\<exists>v. (w, v) \<in> set (cache s) \<and> map_of (cache s) w = Some v \<and>
             a \<in> norm_name ` set (ci_aliases w v) \<and> w \<noteq> []"
proof -
  from assms have "snd (rebuild_loop (cache s) (Map.empty, Map.empty)) a = Some w"
    by (simp add: wf_state_def in_sync_ci)
  from ci_Some[OF this] obtain v where v: "(w, v) \<in> set (cache s)"
      "a \<in> norm_name ` set (ci_aliases w v)"
    by blast
  with assms(1) show ?thesis
    using wf_key_nonblank[OF assms(1) v(1)] wf_map_of[OF assms(1) v(1)] by auto
qed

lemma wf_ci_None:
  assumes "wf_state s"
  shows "alias_ci s a = None \<longleftrightarrow> (\<forall>(w, v) \<in> set (cache s). a \<notin> norm_name ` set (ci_aliases w v))"
  using assms ci_None[of "cache s" a] by (simp add: wf_state_def in_sync_ci)

lemma wf_get_truthy_cs: "wf_state s \<Longrightarrow> get_truthy (alias_cs s) a = alias_cs s a"
  by (auto simp: get_truthy_def split: option.splits dest: wf_cs_Some)

lemma wf_get_truthy_ci: "wf_state s \<Longrightarrow> get_truthy (alias_ci s) a = alias_ci s a"
  by (auto simp: get_truthy_def split: option.splits dest: wf_ci_Some)

lemma set_cs_aliases:
  "set (cs_aliases v) =
     {a. a \<noteq> [] \<and> (a = strip (or_empty (inchikey v)) \<or> a = strip (or_empty (smiles v)) \<or>
           a = strip (or_empty (formula v)) \<or> a = cid_str (cid v))}"
  unfolding cs_aliases_def set_filter by auto

lemma set_ci_aliases:
  "set (ci_aliases w v) =
     {a. a \<noteq> [] \<and> (a = w \<or> a = strip (or_empty (iupac_name v)) \<or>
           a = strip (or_empty (common_name v)))}"
  unfolding ci_aliases_def set_filter by auto

lemma written_in_ci_aliases: "w \<noteq> [] \<Longrightarrow> w \<in> set (ci_aliases w v)"
  by (simp add: set_ci_aliases)

lemma cs_aliases_nonempty: "a \<in> set (cs_aliases v) \<Longrightarrow> a \<noteq> []"
  by (simp add: set_cs_aliases)

lemma ci_aliases_nonblank:
  "strip w \<noteq> [] \<Longrightarrow> a \<in> set (ci_aliases w v) \<Longrightarrow> strip a \<noteq> []"
  by (auto simp: set_ci_aliases)

subsection \<open>What a lookup finds\<close>

lemma wf_no_empty_key: "wf_state s \<Longrightarrow> map_of (cache s) [] = None"
proof (rule ccontr)
  assume wf: "wf_state s" and "map_of (cache s) [] \<noteq> None"
  then obtain v where "([], v) \<in> set (cache s)" by (auto dest: map_of_SomeD)
  from wf_key_nonblank[OF wf this] show False by simp
qed

lemma wf_cs_empty: "wf_state s \<Longrightarrow> alias_cs s [] = None"
  by (auto simp: wf_cs_None dest: cs_aliases_nonempty)

lemma wf_ci_empty: "wf_state s \<Longrightarrow> alias_ci s [] = None"
proof -
  assume wf: "wf_state s"
  have "[] \<notin> norm_name ` set (ci_aliases w v)" if "(w, v) \<in> set (cache s)" for w v
    using ci_aliases_nonblank[OF wf_key_nonblank[OF wf that]]
    by (metis imageE norm_name_eq_Nil)
  then show ?thesis by (auto simp: wf_ci_None[OF wf])
qed

lemma lookup_Some:
  assumes wf: "wf_state s" and hit: "lookup_cache query s = Some r"
  shows "\<exists>w. (w, r) \<in> set (cache s) \<and> map_of (cache s) w = Some r \<and>
             (strip query \<in> set (cs_aliases r) \<or> norm_name query \<in> norm_name ` set (ci_aliases w r))"
proof -
  from hit have nb: "strip query \<noteq> []" by (auto simp: lookup_cache_def split: if_splits)
  show ?thesis
  proof (cases "alias_cs s (strip query)")
    case (Some w)
    with hit nb wf have "map_of (cache s) w = Some r"
      by (simp add: lookup_cache_def wf_get_truthy_cs Let_def)
    with wf_cs_Some[OF wf Some] show ?thesis by auto
  next
    case None
    show ?thesis
    proof (cases "alias_ci s (norm_name query)")
      case (Some w)
      with hit nb wf None have "map_of (cache s) w = Some r"
        by (simp add: lookup_cache_def wf_get_truthy_cs wf_get_truthy_ci Let_def)
      with wf_ci_Some[OF wf Some] show ?thesis by auto
    next
      case None': None
      with hit nb wf None have m: "map_of (cache s) (strip query) = Some r"
        by (simp add: lookup_cache_def wf_get_truthy_cs wf_get_truthy_ci Let_def)
      then have "(strip query, r) \<in> set (cache s)" by (rule map_of_SomeD)
      moreover have "norm_name query \<in> norm_name ` set (ci_aliases (strip query) r)"
        using written_in_ci_aliases[OF nb, of r] by (metis image_eqI norm_name_strip)
      ultimately show ?thesis using m by blast
    qed
  qed
qed

lemma lookup_None_iff:
  assumes wf: "wf_state s" and nb: "strip query \<noteq> []"
  shows "lookup_cache query s = None \<longleftrightarrow>
           (\<forall>(w, v) \<in> set (cache s).
              strip query \<notin> set (cs_aliases v) \<and> norm_name query \<notin> norm_name ` set (ci_aliases w v))"
proof
  assume miss: "lookup_cache query s = None"
  have cs: "alias_cs s (strip query) = None"
  proof (cases "alias_cs s (strip query)")
    case (Some w)
    with wf_cs_Some[OF wf Some] miss nb wf show ?thesis
      by (auto simp: lookup_cache_def wf_get_truthy_cs Let_def)
  qed simp
  have ci: "alias_ci s (norm_name query) = None"
  proof (cases "alias_ci s (norm_name query)")
    case (Some w)
    with wf_ci_Some[OF wf Some] miss nb wf cs show ?thesis
      by (auto simp: lookup_cache_def wf_get_truthy_cs wf_get_truthy_ci Let_def)
  qed simp
  from cs ci show "\<forall>(w, v) \<in> set (cache s).
      strip query \<notin> set (cs_aliases v) \<and> norm_name query \<notin> norm_name ` set (ci_aliases w v)"
    by (simp add: wf_cs_None[OF wf] wf_ci_None[OF wf]) blast
next
  assume none: "\<forall>(w, v) \<in> set (cache s).
      strip query \<notin> set (cs_aliases v) \<and> norm_name query \<notin> norm_name ` set (ci_aliases w v)"
  show "lookup_cache query s = None"
  proof (rule ccontr)
    assume "lookup_cache query s \<noteq> None"
    then obtain r where "lookup_cache query s = Some r" by auto
    from lookup_Some[OF wf this] none show False by blast
  qed
qed

subsection \<open>Effects of the helpers\<close>

lemma rebuild_fields [simp]:
  "cache (rebuild_alias_indexes s) = cache s"
  "cache_file (rebuild_alias_indexes s) = cache_file s"
  "trace (rebuild_alias_indexes s) = trace s @ [Rebuild]"
  "alias_cs (rebuild_alias_indexes s) = fst (rebuild_loop (cache s) (Map.empty, Map.empty))"
  "alias_ci (rebuild_alias_indexes s) = snd (rebuild_loop (cache s) (Map.empty, Map.empty))"
  by (simp_all add: rebuild_alias_indexes_def split_def Let_def)

lemma in_sync_rebuild: "in_sync (rebuild_alias_indexes s)"
  by (simp add: in_sync_def)

lemma add_to_cache_fields [simp]:
  "cache (add_to_cache w r s) = AList.update w r (cache s)"
  "cache_file (add_to_cache w r s) = FileJson (AList.update w r (cache s))"
  "trace (add_to_cache w r s) = trace s @ [StoreSet w, Rebuild, FileWrite]"
  "alias_cs (add_to_cache w r s) = fst (rebuild_loop (AList.update w r (cache s)) (Map.empty, Map.empty))"
  "alias_ci (add_to_cache w r s) = snd (rebuild_loop (AList.update w r (cache s)) (Map.empty, Map.empty))"
  by (simp_all add: add_to_cache_def persist_cache_def)

lemma in_sync_add_to_cache: "in_sync (add_to_cache w r s)"
  by (simp add: in_sync_def)

lemma wf_state_trace [simp]: "wf_state (s\<lparr>trace := t\<rparr>) = wf_state s"
  by (simp add: wf_state_def in_sync_def)

lemma lookup_cache_trace [simp]: "lookup_cache q (s\<lparr>trace := t\<rparr>) = lookup_cache q s"
  by (simp add: lookup_cache_def Let_def split: option.splits)

lemma wf_add_to_cache:
  assumes "wf_state s" "strip w \<noteq> []"
  shows "wf_state (add_to_cache w r s)"
  using assms
  by (auto simp: wf_state_def in_sync_add_to_cache distinct_update
      dest!: subsetD[OF set_update_subset] split: if_splits)

lemma forward_hit:
  assumes "lookup_cache query s = Some r"
  shows "forward pcp query output_format s = (render r (default_format output_format) query, s)"
proof -
  from assms have "strip query \<noteq> []" by (auto simp: lookup_cache_def split: if_splits)
  with assms show ?thesis by (simp add: forward_def)
qed

lemma forward_miss:
  assumes "strip query \<noteq> []" "lookup_cache query s = None"
  shows "forward pcp query output_format s =
     (case fetch_from_pubchem pcp query of
        None \<Rightarrow> (Inr (no_result_msg query),
                 add_to_cache query negative_record (s\<lparr>trace := trace s @ [Fetch query]\<rparr>))
      | Some fetched \<Rightarrow> (render fetched (default_format output_format) query,
                 add_to_cache query fetched (s\<lparr>trace := trace s @ [Fetch query]\<rparr>)))"
  using assms by (simp add: forward_def Let_def)

lemma forward_blank:
  "strip query = [] \<Longrightarrow> forward pcp query output_format s = (Inl query_error, s)"
  by (simp add: forward_def)

lemma wf_forward:
  assumes "wf_state s"
  shows "wf_state (snd (forward pcp query output_format s))"
proof (cases "strip query = []")
  case True
  with assms show ?thesis by (simp add: forward_blank)
next
  case nb: False
  show ?thesis
  proof (cases "lookup_cache query s")
    case None
    with assms nb show ?thesis
      by (simp add: forward_miss wf_add_to_cache split: option.splits)
  next
    case (Some r)
    with assms show ?thesis by (simp add: forward_hit)
  qed
qed

lemma wf_load_cache:
  assumes "case cache_file s of
             FileJson c \<Rightarrow> distinct (map fst c) \<and> (\<forall>k \<in> set (map fst c). strip k \<noteq> [])
           | _ \<Rightarrow> True"
  shows "wf_state (load_cache s)"
  using assms
  by (auto simp: load_cache_def wf_state_def in_sync_rebuild split: file_state.splits)

lemma wf_new_tool: "wf_state new_tool"
  unfolding new_tool_def by (rule wf_load_cache) simp

lemma lookup_after_add:
  assumes wf: "wf_state s" and nb: "strip query \<noteq> []" and miss: "lookup_cache query s = None"
  shows "lookup_cache query (add_to_cache query r s) = Some r"
proof -
  let ?s1 = "add_to_cache query r s"
  have wf1: "wf_state ?s1" by (rule wf_add_to_cache[OF wf nb])
  have q: "query \<noteq> []" using nb by auto
  have mem: "(query, r) \<in> set (cache ?s1)"
    by (rule map_of_SomeD) (simp add: update_conv')
  have "lookup_cache query ?s1 \<noteq> None"
  proof
    assume "lookup_cache query ?s1 = None"
    with lookup_None_iff[OF wf1 nb] mem
    have "norm_name query \<notin> norm_name ` set (ci_aliases query r)" by blast
    with written_in_ci_aliases[OF q] show False by blast
  qed
  then obtain r' where r': "lookup_cache query ?s1 = Some r'" by auto
  from lookup_Some[OF wf1 r'] obtain w where
    w: "(w, r') \<in> set (cache ?s1)"
       "strip query \<in> set (cs_aliases r') \<or> norm_name query \<in> norm_name ` set (ci_aliases w r')"
    by blast
  have "(w, r') = (query, r)"
  proof (rule ccontr)
    assume "(w, r') \<noteq> (query, r)"
    with w(1) have "(w, r') \<in> set (cache s)"
      using set_update_subset[of query r "cache s"] by auto
    with miss lookup_None_iff[OF wf nb] w(2) show False by blast
  qed
  with r' show ?thesis by simp
qed

lemma miss_fresh_key:
  assumes wf: "wf_state s" and nb: "strip query \<noteq> []" and miss: "lookup_cache query s = None"
  shows "query \<notin> fst ` set (cache s)"
proof
  assume "query \<in> fst ` set (cache s)"
  then obtain v where v: "(query, v) \<in> set (cache s)" by auto
  have "query \<noteq> []" using nb by auto
  from written_in_ci_aliases[OF this, of v] v miss lookup_None_iff[OF wf nb]
  show False by blast
qed

subsection \<open>The alias lists and the specification's aliases\<close>

lemma field_alias_iff: "field_alias f a \<longleftrightarrow> a \<noteq> [] \<and> f \<noteq> None \<and> a = strip (or_empty f)"
  by (auto simp: field_alias_def or_empty_def split: option.splits)

lemma cid_alias_iff: "cid_alias c a \<longleftrightarrow> a \<noteq> [] \<and> a = cid_str c"
  by (auto simp: cid_alias_def cid_str_def split: pyval.splits)

lemma structural_alias_iff: "structural_alias r a \<longleftrightarrow> a \<in> set (cs_aliases r)"
  by (auto simp: structural_alias_def set_cs_aliases field_alias_iff cid_alias_iff or_empty_def
      split: option.splits)

lemma field_name_alias_iff:
  "field_name_alias f a \<longleftrightarrow> strip (or_empty f) \<noteq> [] \<and> a = norm_name (strip (or_empty f))"
  by (auto simp: field_name_alias_def or_empty_def norm_name_def split: option.splits)

lemma name_alias_iff: "name_alias w r a \<longleftrightarrow> a \<in> norm_name ` set (ci_aliases w r)"
  by (auto simp: name_alias_def set_ci_aliases field_name_alias_iff norm_name_def image_iff)

subsection \<open>The owner of an alias\<close>

lemma owner_Some:
  "owner claims c = Some w \<Longrightarrow> \<exists>r. (w, r) \<in> set c \<and> claims w r"
  by (auto simp: owner_def split: option.splits dest!: find_SomeD)

lemma owner_None: "owner claims c = None \<longleftrightarrow> (\<forall>(w, r) \<in> set c. \<not> claims w r)"
proof -
  have "owner claims c = None \<longleftrightarrow> find (\<lambda>(w, r). claims w r) (rev c) = None"
    by (simp add: owner_def split: option.splits)
  then show ?thesis by (auto simp: find_None_iff)
qed

lemma rebuilt_cs_owner:
  "fst (rebuild_loop c (Map.empty, Map.empty)) a = owner (\<lambda>w r. structural_alias r a) c"
  by (simp add: rebuild_loop_cs owner_def structural_alias_iff)

lemma rebuilt_ci_owner:
  "snd (rebuild_loop c (Map.empty, Map.empty)) a = owner (\<lambda>w r. name_alias w r a) c"
  by (simp add: rebuild_loop_ci owner_def name_alias_iff)

lemma name_alias_written: "w \<noteq> [] \<Longrightarrow> name_alias w r (lower (strip w))"
  by (simp add: name_alias_def)

lemma name_alias_empty_key:
  "name_alias [] r a \<longleftrightarrow> field_name_alias (iupac_name r) a \<or> field_name_alias (common_name r) a"
  by (simp add: name_alias_def)

lemma alias_tables_ok_rebuilt:
  assumes cs: "alias_cs s = fst (rebuild_loop (cache s) (Map.empty, Map.empty))"
      and ci: "alias_ci s = snd (rebuild_loop (cache s) (Map.empty, Map.empty))"
  shows "alias_tables_ok s"
proof -
  have cs': "alias_cs s a = owner (\<lambda>w r. structural_alias r a) (cache s)" for a
    by (simp add: cs rebuilt_cs_owner)
  have ci': "alias_ci s a = owner (\<lambda>w r. name_alias w r a) (cache s)" for a
    by (simp add: ci rebuilt_ci_owner)
  have c3: "a \<noteq> [] \<and> (\<exists>r. (w, r) \<in> set (cache s) \<and> structural_alias r a)"
    if "alias_cs s a = Some w" for a w
  proof -
    from that owner_Some[of "\<lambda>w r. structural_alias r a" "cache s" w]
    obtain r where r: "(w, r) \<in> set (cache s)" "structural_alias r a" by (auto simp: cs')
    from r(2) have "a \<noteq> []" by (auto simp: structural_alias_iff dest: cs_aliases_nonempty)
    with r show ?thesis by blast
  qed
  have c4: "\<exists>r. (w, r) \<in> set (cache s) \<and> name_alias w r a" if "alias_ci s a = Some w" for a w
    using that owner_Some[of "\<lambda>w r. name_alias w r a" "cache s" w] by (simp add: ci')
  have c5: "(\<exists>w' r'. alias_ci s (lower (strip w)) = Some w' \<and> (w', r') \<in> set (cache s) \<and>
                 name_alias w' r' (lower (strip w))) \<and>
        ((\<forall>(w', r') \<in> set (cache s). w' \<noteq> w \<longrightarrow> \<not> name_alias w' r' (lower (strip w)))
           \<longrightarrow> alias_ci s (lower (strip w)) = Some w)"
    if mem: "(w, r) \<in> set (cache s)" and ne: "w \<noteq> []" for w r
  proof -
    have "alias_ci s (lower (strip w)) \<noteq> None"
      using mem name_alias_written[OF ne, of r] by (auto simp: ci' owner_None)
    then obtain w' where w': "alias_ci s (lower (strip w)) = Some w'" by auto
    from c4[OF w'] obtain r' where
      r': "(w', r') \<in> set (cache s)" "name_alias w' r' (lower (strip w))" by blast
    with w' show ?thesis by auto
  qed
  have c6: "\<exists>r. ([], r) \<in> set (cache s) \<and>
             (field_name_alias (iupac_name r) a \<or> field_name_alias (common_name r) a)"
    if "alias_ci s a = Some []" for a
    using c4[OF that] by (simp add: name_alias_empty_key)
  show ?thesis
    unfolding alias_tables_ok_def
    using cs' ci' c3 c4 c5 c6 by (intro conjI allI impI ballI) auto
qed

subsection \<open>The example states are well formed\<close>

lemma wf_water_tool: "wf_state water_tool"
  unfolding water_tool_def by (rule wf_forward[OF wf_new_tool])

subsection \<open>A second call after a miss; rendering\<close>

lemma forward_after_miss:
  assumes wf: "wf_state s" and nb: "strip query \<noteq> []" and miss: "lookup_cache query s = None"
  shows "forward pcp' query fmt' (add_to_cache query r (s\<lparr>trace := trace s @ [Fetch query]\<rparr>)) =
           (render r (default_format fmt') query,
            add_to_cache query r (s\<lparr>trace := trace s @ [Fetch query]\<rparr>))"
  by (rule forward_hit) (rule lookup_after_add, simp_all add: wf nb miss)

lemma render_negative_json: "render negative_record ''json'' query = Inr (json_dumps negative_record)"
  by (simp add: render_def)

lemma render_negative_field:
  "f \<in> set field_names \<Longrightarrow> render negative_record f query = Inr (no_value_msg f query)"
  by (auto simp: render_def field_names_def get_field_def negative_record_def)

lemma render_json: "render r (default_format (Some ''json'')) query = Inr (json_dumps r)"
  by (simp add: render_def default_format_def)

lemma wf_isomer_tool: "wf_state isomer_tool"
  unfolding isomer_tool_def by (intro wf_forward wf_new_tool)

lemma wf_inchikey_tool: "wf_state inchikey_tool"
  unfolding inchikey_tool_def by (intro wf_forward wf_new_tool)

lemma wf_unobtainium_tool: "wf_state unobtainium_tool"
  unfolding unobtainium_tool_def by (intro wf_forward wf_new_tool)

lemma wf_cas_tool: "wf_state cas_tool"
  unfolding cas_tool_def by (intro wf_forward wf_new_tool)

lemma second_call_leaves_state:
  assumes wf: "wf_state s" and nb: "strip query \<noteq> []"
  shows "snd (forward pcp' query fmt' (snd (forward pcp query output_format s))) =
         snd (forward pcp query output_format s)"
proof (cases "lookup_cache query s")
  case (Some r)
  then show ?thesis by (simp add: forward_hit)
next
  case None
  then show ?thesis
    by (simp add: forward_miss[OF nb None] forward_after_miss[OF wf nb None]
        split: option.splits)
qed

section \<open>The claims\<close>

subsection \<open>C10: a cache hit mutates nothing\<close>

text \<open>
  C10. For every \<^const>\<open>forward\<close> call whose cache lookup returns a record, nothing is
  mutated: the store, both alias tables and the cache file are the same before and after
  the call, and the trace gains no event, so \<^verbatim>\<open>_fetch_from_pubchem\<close> is not invoked and
  the file is not written. This holds for every \<^verbatim>\<open>output_format\<close>, also one that makes the
  rendering raise.
\<close>

theorem forward_hit_mutates_nothing:
  assumes "lookup_cache query s = Some r"
  shows "(let s' = snd (forward pcp query output_format s)
          in s' = s \<and> cache s' = cache s \<and> alias_cs s' = alias_cs s \<and>
             alias_ci s' = alias_ci s \<and> cache_file s' = cache_file s \<and> trace s' = trace s)"
  using forward_hit[OF assms, of pcp output_format] by simp

theorem forward_hit_mutates_nothing_witness:
  "lookup_cache '' WATER '' water_tool = Some water_record \<and>
   snd (forward no_compounds '' WATER '' (Some ''cid'') water_tool) = water_tool \<and>
   trace (snd (forward no_compounds '' WATER '' (Some ''cid'') water_tool)) = trace water_tool"
proof -
  have h: "lookup_cache '' WATER '' water_tool = Some water_record"
    by code_simp
  from forward_hit_mutates_nothing[OF h, of no_compounds "Some ''cid''"] h
  show ?thesis by (simp add: Let_def)
qed

subsection \<open>C9: a cache miss upserts\<close>

text \<open>
  C9. Every \<^const>\<open>forward\<close> call with a non-blank query whose cache lookup misses calls
  \<^verbatim>\<open>_fetch_from_pubchem\<close> and then upserts under the raw query, whether the fetch found a
  record or not (then the negative record): the store is assigned under the written key,
  then both alias tables are rebuilt from the new store, then the whole file is
  rewritten with the new store, in that order (the trace). In a well-formed state the
  written key is new, so the store grows by one entry.
\<close>

theorem forward_miss_upserts:
  assumes nb: "strip query \<noteq> []" and miss: "lookup_cache query s = None"
  shows "(let s' = snd (forward pcp query output_format s);
              r = (case fetch_from_pubchem pcp query of
                     None \<Rightarrow> negative_record | Some fetched \<Rightarrow> fetched)
          in cache s' = AList.update query r (cache s) \<and>
             map_of (cache s') query = Some r \<and>
             (alias_cs s', alias_ci s') = rebuild_loop (cache s') (Map.empty, Map.empty) \<and>
             cache_file s' = FileJson (cache s') \<and>
             trace s' = trace s @ [Fetch query, StoreSet query, Rebuild, FileWrite] \<and>
             (wf_state s \<longrightarrow> cache s' = cache s @ [(query, r)] \<and> cache s' \<noteq> cache s))"
proof -
  have fresh: "AList.update query r (cache s) = cache s @ [(query, r)]" if "wf_state s" for r
    by (rule update_fresh) (rule miss_fresh_key[OF that nb miss])
  show ?thesis
    using fresh by (simp add: forward_miss[OF nb miss] Let_def update_conv' split: option.splits)
qed

theorem forward_miss_upserts_witness:
  "strip ''water'' \<noteq> [] \<and> lookup_cache ''water'' new_tool = None \<and>
   cache (snd (forward water_service ''water'' (Some ''smiles'') new_tool)) =
     [(''water'', water_record)] \<and>
   cache_file (snd (forward water_service ''water'' (Some ''smiles'') new_tool)) =
     FileJson [(''water'', water_record)] \<and>
   trace (snd (forward water_service ''water'' (Some ''smiles'') new_tool)) =
     trace new_tool @ [Fetch ''water'', StoreSet ''water'', Rebuild, FileWrite] \<and>
   wf_state new_tool \<and>
   cache (snd (forward water_service ''water'' (Some ''smiles'') new_tool)) \<noteq> cache new_tool"
proof -
  have nb: "strip ''water'' \<noteq> []" by code_simp
  have miss: "lookup_cache ''water'' new_tool = None" by code_simp
  have f: "fetch_from_pubchem water_service ''water'' = Some water_record" by code_simp
  have c: "cache new_tool = []" by code_simp
  from forward_miss_upserts[OF nb miss, of water_service "Some ''smiles''"] nb miss wf_new_tool
  show ?thesis by (simp add: Let_def f c)
qed

subsection \<open>C4: the order of the lookup\<close>

text \<open>
  C4. In every state and for every query string, \<^const>\<open>lookup_cache\<close> tries, in this
  order: (a) the trimmed query, case preserved, in the case-sensitive table; (b) the
  trimmed and lowercased query in the case-insensitive table; (c) the trimmed query as a
  written key of the store. A table entry is a match when its written key is not empty,
  and the record returned is the store's at that written key; when neither table
  matches, the result is the store's at the trimmed query, a record or absence. A query
  that is blank gets absence. Step (a) reads the table at \<^term>\<open>strip query\<close>, not
  lowercased. In a well-formed state this is the lookup of the specification,
  \<^const>\<open>spec_lookup\<close>.
\<close>

theorem lookup_cache_order:
  "(strip query = [] \<longrightarrow> lookup_cache query s = None) \<and>
   (strip query \<noteq> [] \<longrightarrow>
      (\<forall>w. alias_cs s (strip query) = Some w \<and> w \<noteq> [] \<longrightarrow>
           lookup_cache query s = map_of (cache s) w) \<and>
      (alias_cs s (strip query) = None \<or> alias_cs s (strip query) = Some [] \<longrightarrow>
         (\<forall>w. alias_ci s (lower (strip query)) = Some w \<and> w \<noteq> [] \<longrightarrow>
              lookup_cache query s = map_of (cache s) w) \<and>
         (alias_ci s (lower (strip query)) = None \<or> alias_ci s (lower (strip query)) = Some []
            \<longrightarrow> lookup_cache query s = map_of (cache s) (strip query)))) \<and>
   (wf_state s \<longrightarrow> lookup_cache query s = spec_lookup query s)"
proof (intro conjI impI allI)
  assume "strip query = []"
  then show "lookup_cache query s = None" by (simp add: lookup_cache_def)
next
  fix w assume "strip query \<noteq> []" "alias_cs s (strip query) = Some w \<and> w \<noteq> []"
  then show "lookup_cache query s = map_of (cache s) w"
    by (simp add: lookup_cache_def get_truthy_def Let_def)
next
  fix w
  assume "strip query \<noteq> []"
     and "alias_cs s (strip query) = None \<or> alias_cs s (strip query) = Some []"
     and "alias_ci s (lower (strip query)) = Some w \<and> w \<noteq> []"
  then show "lookup_cache query s = map_of (cache s) w"
    by (auto simp: lookup_cache_def get_truthy_def Let_def norm_name_def)
next
  assume "strip query \<noteq> []"
     and "alias_cs s (strip query) = None \<or> alias_cs s (strip query) = Some []"
     and "alias_ci s (lower (strip query)) = None \<or> alias_ci s (lower (strip query)) = Some []"
  then show "lookup_cache query s = map_of (cache s) (strip query)"
    by (auto simp: lookup_cache_def get_truthy_def Let_def norm_name_def)
next
  assume wf: "wf_state s"
  show "lookup_cache query s = spec_lookup query s"
  proof (cases "strip query = []")
    case True
    then show ?thesis
      using wf
      by (simp add: lookup_cache_def spec_lookup_def wf_cs_empty wf_ci_empty wf_no_empty_key
          lower_def)
  next
    case False
    then show ?thesis
      using wf
      by (simp add: lookup_cache_def spec_lookup_def wf_get_truthy_cs wf_get_truthy_ci
          norm_name_def Let_def split: option.splits)
  qed
qed

theorem lookup_cache_order_witness:
  "strip ''   '' = [] \<and> lookup_cache ''   '' water_tool = None \<and>
   strip '' H2O '' \<noteq> [] \<and> alias_cs water_tool (strip '' H2O '') = Some ''water'' \<and>
   lookup_cache '' H2O '' water_tool = map_of (cache water_tool) ''water'' \<and>
   map_of (cache water_tool) ''water'' = Some water_record \<and>
   alias_cs water_tool (strip ''h2o'') = None \<and> alias_ci water_tool (lower (strip ''h2o'')) = None \<and>
   lookup_cache ''h2o'' water_tool = map_of (cache water_tool) (strip ''h2o'') \<and>
   map_of (cache water_tool) (strip ''h2o'') = None \<and>
   alias_cs water_tool (strip ''WATER'') = None \<and>
   alias_ci water_tool (lower (strip ''WATER'')) = Some ''water'' \<and>
   lookup_cache ''WATER'' water_tool = map_of (cache water_tool) ''water'' \<and>
   alias_cs blank_key_tool (strip ''water'') = None \<and>
   alias_ci blank_key_tool (lower (strip ''water'')) = Some [] \<and>
   lookup_cache ''water'' blank_key_tool = map_of (cache blank_key_tool) (strip ''water'') \<and>
   map_of (cache blank_key_tool) (strip ''water'') = Some water_record \<and>
   wf_state water_tool \<and> lookup_cache '' H2O '' water_tool = spec_lookup '' H2O '' water_tool"
proof -
  have b0: "strip ''   '' = []" by code_simp
  have n1: "strip '' H2O '' \<noteq> []" and n2: "strip ''h2o'' \<noteq> []"
   and n3: "strip ''WATER'' \<noteq> []" and n4: "strip ''water'' \<noteq> []" by code_simp+
  have a1: "alias_cs water_tool (strip '' H2O '') = Some ''water''" by code_simp
  have a2: "alias_cs water_tool (strip ''h2o'') = None" by code_simp
  have i2: "alias_ci water_tool (lower (strip ''h2o'')) = None" by code_simp
  have a3: "alias_cs water_tool (strip ''WATER'') = None" by code_simp
  have i3: "alias_ci water_tool (lower (strip ''WATER'')) = Some ''water''" by code_simp
  have a4: "alias_cs blank_key_tool (strip ''water'') = None" by code_simp
  have i4: "alias_ci blank_key_tool (lower (strip ''water'')) = Some []" by code_simp
  have m1: "map_of (cache water_tool) ''water'' = Some water_record" by code_simp
  have m2: "map_of (cache water_tool) (strip ''h2o'') = None" by code_simp
  have m4: "map_of (cache blank_key_tool) (strip ''water'') = Some water_record" by code_simp
  have w: "''water'' \<noteq> []" by simp
  from lookup_cache_order[of "''   ''" water_tool] b0
  have r0: "lookup_cache ''   '' water_tool = None" by blast
  from lookup_cache_order[of "'' H2O ''" water_tool] n1 a1 w
  have r1: "lookup_cache '' H2O '' water_tool = map_of (cache water_tool) ''water''" by blast
  from lookup_cache_order[of "''h2o''" water_tool] n2 a2 i2
  have r2: "lookup_cache ''h2o'' water_tool = map_of (cache water_tool) (strip ''h2o'')" by blast
  from lookup_cache_order[of "''WATER''" water_tool] n3 a3 i3 w
  have r3: "lookup_cache ''WATER'' water_tool = map_of (cache water_tool) ''water''" by blast
  from lookup_cache_order[of "''water''" blank_key_tool] n4 a4 i4
  have r4: "lookup_cache ''water'' blank_key_tool = map_of (cache blank_key_tool) (strip ''water'')"
    by blast
  from lookup_cache_order[of "'' H2O ''" water_tool] wf_water_tool
  have r5: "lookup_cache '' H2O '' water_tool = spec_lookup '' H2O '' water_tool" by blast
  from b0 n1 a1 a2 i2 a3 i3 a4 i4 m1 m2 m4 r0 r1 r2 r3 r4 r5 wf_water_tool
  show ?thesis by simp
qed

subsection \<open>C7: the invariant of the alias tables\<close>

text \<open>
  C7, as amended. After every rebuild of the alias tables, so after \<^const>\<open>load_cache\<close>
  and after every \<^const>\<open>add_to_cache\<close>, in every state: each table maps an alias to the
  written key of the last entry of the store that generates it, so every alias key of
  either table maps to a written key present in the store; every non-empty written key
  occurs, normalised, in the case-insensitive table, where it maps to itself unless an
  entry under another key generates the same normalised name; the empty written key is
  never its own alias; and every alias comes from the written key or from a field that
  is neither null nor empty nor blank.
\<close>

theorem alias_index_invariant:
  "alias_tables_ok (rebuild_alias_indexes s) \<and> alias_tables_ok (load_cache s) \<and>
   alias_tables_ok (add_to_cache written r s)"
proof (intro conjI)
  show "alias_tables_ok (rebuild_alias_indexes s)"
    by (rule alias_tables_ok_rebuilt) simp_all
  show "alias_tables_ok (load_cache s)"
    unfolding load_cache_def by (rule alias_tables_ok_rebuilt) simp_all
  show "alias_tables_ok (add_to_cache written r s)"
    by (rule alias_tables_ok_rebuilt) simp_all
qed

theorem alias_index_invariant_witness:
  "alias_cs (rebuild_alias_indexes cas_tool) ''H2O'' = Some ''7732-18-5'' \<and>
   (\<exists>r. (''7732-18-5'', r) \<in> set (cache (rebuild_alias_indexes cas_tool)) \<and>
        structural_alias r ''H2O'') \<and>
   alias_ci (rebuild_alias_indexes cas_tool) ''oxidane'' = Some ''7732-18-5'' \<and>
   (\<exists>r. (''7732-18-5'', r) \<in> set (cache (rebuild_alias_indexes cas_tool)) \<and>
        name_alias ''7732-18-5'' r ''oxidane'') \<and>
   (''7732-18-5'', water_record) \<in> set (cache (rebuild_alias_indexes cas_tool)) \<and>
   alias_ci (rebuild_alias_indexes cas_tool) (lower (strip ''7732-18-5'')) = Some ''7732-18-5'' \<and>
   (''water'', water_record) \<in> set (cache (rebuild_alias_indexes cas_tool)) \<and>
   (\<exists>w' r'. alias_ci (rebuild_alias_indexes cas_tool) (lower (strip ''water'')) = Some w' \<and>
      (w', r') \<in> set (cache (rebuild_alias_indexes cas_tool)) \<and>
      name_alias w' r' (lower (strip ''water''))) \<and>
   alias_ci (load_cache blank_key_tool) ''water'' = Some [] \<and>
   (\<exists>r. ([], r) \<in> set (cache (load_cache blank_key_tool)) \<and>
        (field_name_alias (iupac_name r) ''water'' \<or> field_name_alias (common_name r) ''water''))"
proof -
  let ?s = "rebuild_alias_indexes cas_tool"
  let ?t = "load_cache blank_key_tool"
  have c: "cache cas_tool = [(''water'', water_record), (''7732-18-5'', water_record)]"
    by code_simp
  have a: "alias_cs ?s ''H2O'' = Some ''7732-18-5''" by code_simp
  have b: "alias_ci ?s ''oxidane'' = Some ''7732-18-5''" by code_simp
  have e: "alias_ci ?t ''water'' = Some []" by code_simp
  have ok: "alias_tables_ok ?s" "alias_tables_ok ?t"
    using alias_index_invariant[of cas_tool] alias_index_invariant[of blank_key_tool] by simp_all
  have m1: "(''7732-18-5'', water_record) \<in> set (cache ?s)"
   and m2: "(''water'', water_record) \<in> set (cache ?s)" by (simp_all add: c)
  have n1: "''7732-18-5'' \<noteq> []" and n2: "''water'' \<noteq> []" by simp_all
  have u: "\<forall>(w', r') \<in> set (cache ?s). w' \<noteq> ''7732-18-5'' \<longrightarrow>
             \<not> name_alias w' r' (lower (strip ''7732-18-5''))"
  proof -
    have "\<not> name_alias ''water'' water_record (lower (strip ''7732-18-5''))" by code_simp
    then show ?thesis by (simp add: c)
  qed
  from ok(1) a have 1: "\<exists>r. (''7732-18-5'', r) \<in> set (cache ?s) \<and> structural_alias r ''H2O''"
    unfolding alias_tables_ok_def by blast
  from ok(1) b have 2: "\<exists>r. (''7732-18-5'', r) \<in> set (cache ?s) \<and> name_alias ''7732-18-5'' r ''oxidane''"
    unfolding alias_tables_ok_def by blast
  from ok(1) m1 n1 u have 3: "alias_ci ?s (lower (strip ''7732-18-5'')) = Some ''7732-18-5''"
    unfolding alias_tables_ok_def by blast
  from ok(1) m2 n2 have 4: "\<exists>w' r'. alias_ci ?s (lower (strip ''water'')) = Some w' \<and>
      (w', r') \<in> set (cache ?s) \<and> name_alias w' r' (lower (strip ''water''))"
    unfolding alias_tables_ok_def by blast
  from ok(2) e have 5: "\<exists>r. ([], r) \<in> set (cache ?t) \<and>
        (field_name_alias (iupac_name r) ''water'' \<or> field_name_alias (common_name r) ''water'')"
    unfolding alias_tables_ok_def by blast
  from a b e m1 m2 1 2 3 4 5 show ?thesis by blast
qed

text \<open>
  C7 as stated fails in its second part. After \<^verbatim>\<open>"water"\<close> and then \<^verbatim>\<open>"7732-18-5"\<close>
  are resolved to the same compound, the later entry's \<^verbatim>\<open>common_name\<close> owns the
  normalised written key of the first, which is therefore not its own alias; and a
  store loaded with an entry under the empty key has no alias for that key.
\<close>

theorem alias_index_invariant_counterexample:
  "cache cas_tool = [(''water'', water_record), (''7732-18-5'', water_record)] \<and>
   alias_ci cas_tool (lower (strip ''water'')) = Some ''7732-18-5'' \<and>
   alias_ci cas_tool (lower (strip ''water'')) \<noteq> Some ''water'' \<and>
   alias_ci (rebuild_alias_indexes cas_tool) (lower (strip ''water'')) \<noteq> Some ''water'' \<and>
   map_of (cache blank_key_tool) [] = Some shadow_record \<and>
   alias_ci blank_key_tool (lower (strip [])) = None"
  by code_simp

subsection \<open>C1: resolving the same query twice\<close>

text \<open>
  C1. For a query the service knows nothing about, the first \<^const>\<open>forward\<close> call
  returns the "no result" message (and caches the negative record); the second call,
  served from the cache without a fetch, returns the rendering of the all-null record
  instead: its JSON text for \<^verbatim>\<open>"json"\<close>, the "no value" message for a field name. The
  two calls do not return the same string.
\<close>

theorem negative_result_not_idempotent:
  "fetch_from_pubchem no_compounds ''unobtainium999'' = None \<and>
   fst (forward no_compounds ''unobtainium999'' (Some ''json'') new_tool) =
     Inr ''No PubChem result found for: unobtainium999'' \<and>
   fst (forward no_compounds ''unobtainium999'' (Some ''json'')
         (snd (forward no_compounds ''unobtainium999'' (Some ''json'') new_tool))) =
     Inr (json_dumps negative_record) \<and>
   fst (forward no_compounds ''unobtainium999'' (Some ''json'')
         (snd (forward no_compounds ''unobtainium999'' (Some ''json'') new_tool))) \<noteq>
   fst (forward no_compounds ''unobtainium999'' (Some ''json'') new_tool) \<and>
   fst (forward no_compounds ''unobtainium999'' (Some ''cid'') new_tool) =
     Inr ''No PubChem result found for: unobtainium999'' \<and>
   fst (forward no_compounds ''unobtainium999'' (Some ''cid'')
         (snd (forward no_compounds ''unobtainium999'' (Some ''cid'') new_tool))) =
     Inr (no_value_msg ''cid'' ''unobtainium999'') \<and>
   trace (snd (forward no_compounds ''unobtainium999'' (Some ''json'')
         (snd (forward no_compounds ''unobtainium999'' (Some ''json'') new_tool)))) =
   trace (snd (forward no_compounds ''unobtainium999'' (Some ''json'') new_tool))"
  by code_simp

subsection \<open>C2: negative caching\<close>

text \<open>
  C2. For a query the service knows nothing about, the call that reaches the service
  stores the all-null record, calls the fetch once and returns the "no result" message;
  the repeated call with \<^verbatim>\<open>"json"\<close>, served from the cached negative record, returns the
  JSON text of that record, which is neither the "no result" nor the "no value" message.
\<close>

theorem cached_negative_renders_record:
  "fetch_from_pubchem no_compounds ''unobtainium999'' = None \<and>
   fst (forward no_compounds ''unobtainium999'' (Some ''json'') new_tool) =
     Inr (no_result_msg ''unobtainium999'') \<and>
   map_of (cache unobtainium_tool) ''unobtainium999'' = Some negative_record \<and>
   fst (forward no_compounds ''unobtainium999'' (Some ''json'') unobtainium_tool) =
     Inr (json_dumps negative_record) \<and>
   json_dumps negative_record \<noteq> no_result_msg ''unobtainium999'' \<and>
   json_dumps negative_record \<noteq> no_value_msg ''json'' ''unobtainium999'' \<and>
   take 19 (json_dumps negative_record) =
     ''{'' @ [CHR 0x0A] @ ''  '' @ [CHR 0x22] @ ''iupac_name'' @ [CHR 0x22] @ '': n'' \<and>
   trace unobtainium_tool =
     trace new_tool @
     [Fetch ''unobtainium999'', StoreSet ''unobtainium999'', Rebuild, FileWrite] \<and>
   trace (snd (forward no_compounds ''unobtainium999'' (Some ''json'') unobtainium_tool)) =
     trace unobtainium_tool"
  by code_simp

subsection \<open>C5: alias symmetry\<close>

text \<open>
  C5, as amended. In a well-formed state, for every record \<open>R\<close> stored under the written
  key \<open>W\<close> whose \<^verbatim>\<open>inchikey\<close> field is a non-blank string \<open>k\<close> (such as \<^verbatim>\<open>"ABC-123"\<close>): if
  no other entry has the trimmed \<open>k\<close> or the trimmed \<open>W\<close> as a structural alias, or the
  normalised \<open>W\<close> as a name alias, then \<^verbatim>\<open>forward(k, "json")\<close> and \<^verbatim>\<open>forward(W, "json")\<close>
  both return the JSON text of \<open>R\<close> and leave the state untouched (no fetch).
\<close>

theorem alias_symmetry:
  assumes wf: "wf_state s"
      and stored: "map_of (cache s) W = Some R"
      and key: "inchikey R = Some k" and kb: "strip k \<noteq> []"
      and unique: "\<forall>(w', r') \<in> set (cache s). w' \<noteq> W \<longrightarrow>
                     \<not> structural_alias r' (strip k) \<and> \<not> structural_alias r' (strip W) \<and>
                     \<not> name_alias w' r' (lower (strip W))"
  shows "forward pcp k (Some ''json'') s = (Inr (json_dumps R), s) \<and>
         forward pcp W (Some ''json'') s = (Inr (json_dumps R), s)"
proof -
  have mem: "(W, R) \<in> set (cache s)" using stored by (rule map_of_SomeD)
  have Wb: "strip W \<noteq> []" by (rule wf_key_nonblank[OF wf mem])
  then have W: "W \<noteq> []" by auto
  have cs_only: "w = W" if "alias_cs s a = Some w" "a = strip k \<or> a = strip W" for a w
  proof (rule ccontr)
    assume "w \<noteq> W"
    moreover from wf_cs_Some[OF wf that(1)] obtain v where
      "(w, v) \<in> set (cache s)" "structural_alias v a"
      by (auto simp: structural_alias_iff)
    ultimately show False using unique that(2) by auto
  qed
  have ci_only: "w = W" if "alias_ci s (norm_name W) = Some w" for w
  proof (rule ccontr)
    assume "w \<noteq> W"
    moreover from wf_ci_Some[OF wf that] obtain v where
      "(w, v) \<in> set (cache s)" "name_alias w v (norm_name W)"
      by (auto simp: name_alias_iff)
    ultimately show False using unique by (auto simp: norm_name_def)
  qed
  have "structural_alias R (strip k)"
    by (simp add: structural_alias_def field_alias_def key kb)
  with mem have "alias_cs s (strip k) \<noteq> None"
    by (auto simp: wf_cs_None[OF wf] structural_alias_iff)
  then obtain w where w: "alias_cs s (strip k) = Some w" by auto
  with cs_only have "alias_cs s (strip k) = Some W" by blast
  then have hit_k: "lookup_cache k s = Some R"
    using kb stored by (simp add: lookup_cache_def wf_get_truthy_cs[OF wf] Let_def)
  have "alias_ci s (norm_name W) \<noteq> None"
    using mem written_in_ci_aliases[OF W, of R] by (auto simp: wf_ci_None[OF wf])
  then obtain w' where "alias_ci s (norm_name W) = Some w'" by auto
  with ci_only have ci_W: "alias_ci s (norm_name W) = Some W" by blast
  have hit_W: "lookup_cache W s = Some R"
  proof (cases "alias_cs s (strip W)")
    case None
    with ci_W Wb stored show ?thesis
      by (simp add: lookup_cache_def wf_get_truthy_cs[OF wf] wf_get_truthy_ci[OF wf] Let_def)
  next
    case (Some w'')
    with cs_only have "alias_cs s (strip W) = Some W" by blast
    with Wb stored show ?thesis
      by (simp add: lookup_cache_def wf_get_truthy_cs[OF wf] Let_def)
  qed
  show ?thesis
    by (simp add: forward_hit[OF hit_k] forward_hit[OF hit_W] render_json)
qed

theorem alias_symmetry_witness:
  "wf_state isomer_tool \<and>
   map_of (cache isomer_tool) ''dimethyl ether'' = Some (record_of_compound compound_b) \<and>
   inchikey (record_of_compound compound_b) = Some ''DEF-456'' \<and>
   strip ''DEF-456'' \<noteq> [] \<and>
   forward no_compounds ''DEF-456'' (Some ''json'') isomer_tool =
     (Inr (json_dumps (record_of_compound compound_b)), isomer_tool) \<and>
   forward no_compounds ''dimethyl ether'' (Some ''json'') isomer_tool =
     (Inr (json_dumps (record_of_compound compound_b)), isomer_tool)"
proof -
  have c: "cache isomer_tool =
     [(''C2H6O'', record_of_compound compound_a),
      (''dimethyl ether'', record_of_compound compound_b)]" by code_simp
  have stored: "map_of (cache isomer_tool) ''dimethyl ether'' = Some (record_of_compound compound_b)"
    by (simp add: c)
  have key: "inchikey (record_of_compound compound_b) = Some ''DEF-456''" by code_simp
  have kb: "strip ''DEF-456'' \<noteq> []" by code_simp
  have u1: "\<not> structural_alias (record_of_compound compound_a) (strip ''DEF-456'')"
    by code_simp
  have u2: "\<not> structural_alias (record_of_compound compound_a) (strip ''dimethyl ether'')"
    by code_simp
  have u3: "\<not> name_alias ''C2H6O'' (record_of_compound compound_a) (lower (strip ''dimethyl ether''))"
    by code_simp
  have unique: "\<forall>(w', r') \<in> set (cache isomer_tool). w' \<noteq> ''dimethyl ether'' \<longrightarrow>
      \<not> structural_alias r' (strip ''DEF-456'') \<and>
      \<not> structural_alias r' (strip ''dimethyl ether'') \<and>
      \<not> name_alias w' r' (lower (strip ''dimethyl ether''))"
    using u1 u2 u3 by (simp add: c)
  from alias_symmetry[OF wf_isomer_tool stored key kb unique, of no_compounds]
    wf_isomer_tool stored key kb
  show ?thesis by simp
qed

text \<open>
  C5 as stated fails when another entry claims the written key as an alias: after
  \<^verbatim>\<open>"C2H6O"\<close> and then \<^verbatim>\<open>"dimethyl ether"\<close> are resolved, only the first record has the
  alias \<^verbatim>\<open>"ABC-123"\<close>, yet the formula \<^verbatim>\<open>"C2H6O"\<close> of the second record now owns the first
  record's written key in the case-sensitive table.
\<close>

theorem alias_symmetry_counterexample:
  "cache isomer_tool =
     [(''C2H6O'', record_of_compound compound_a),
      (''dimethyl ether'', record_of_compound compound_b)] \<and>
   inchikey (record_of_compound compound_a) = Some ''ABC-123'' \<and>
   \<not> structural_alias (record_of_compound compound_b) ''ABC-123'' \<and>
   \<not> name_alias ''dimethyl ether'' (record_of_compound compound_b) (lower ''ABC-123'') \<and>
   forward isomer_service ''ABC-123'' (Some ''json'') isomer_tool =
     (Inr (json_dumps (record_of_compound compound_a)), isomer_tool) \<and>
   forward isomer_service ''C2H6O'' (Some ''json'') isomer_tool =
     (Inr (json_dumps (record_of_compound compound_b)), isomer_tool) \<and>
   json_dumps (record_of_compound compound_a) \<noteq> json_dumps (record_of_compound compound_b)"
proof -
  have a: "lookup_cache ''ABC-123'' isomer_tool = Some (record_of_compound compound_a)"
    by code_simp
  have b: "lookup_cache ''C2H6O'' isomer_tool = Some (record_of_compound compound_b)"
    by code_simp
  have c: "cache isomer_tool =
     [(''C2H6O'', record_of_compound compound_a),
      (''dimethyl ether'', record_of_compound compound_b)]" by code_simp
  have d: "inchikey (record_of_compound compound_a) = Some ''ABC-123''" by code_simp
  have e: "\<not> structural_alias (record_of_compound compound_b) ''ABC-123''" by code_simp
  have f: "\<not> name_alias ''dimethyl ether'' (record_of_compound compound_b) (lower ''ABC-123'')"
    by code_simp
  have g: "json_dumps (record_of_compound compound_a) \<noteq> json_dumps (record_of_compound compound_b)"
    by code_simp
  show ?thesis
    using c d e f g by (simp add: forward_hit[OF a] forward_hit[OF b] render_json)
qed

subsection \<open>C6: case sensitivity of the aliases\<close>

text \<open>
  C6, as amended. In a well-formed state: every key of the case-sensitive table is,
  character for character, a trimmed structural alias (\<^verbatim>\<open>inchikey\<close>, \<^verbatim>\<open>smiles\<close>,
  \<^verbatim>\<open>formula\<close>, stringified \<^verbatim>\<open>cid\<close>) of the entry it maps to; a lookup returns only a
  record that has the trimmed query as a structural alias or the trimmed, lowercased
  query as a name alias (written key, \<^verbatim>\<open>iupac_name\<close>, \<^verbatim>\<open>common_name\<close>); a non-blank query
  that no entry claims in either way misses; and a query that some entry claims in either
  way hits. So a query that differs in case from a structural alias hits only through a
  name alias, the written key included.
\<close>

theorem alias_matching:
  assumes wf: "wf_state s"
  shows "(\<forall>a w. alias_cs s a = Some w \<longrightarrow>
            (\<exists>r. map_of (cache s) w = Some r \<and> structural_alias r a)) \<and>
         (\<forall>q r. lookup_cache q s = Some r \<longrightarrow>
            (\<exists>w. map_of (cache s) w = Some r \<and>
                 (structural_alias r (strip q) \<or> name_alias w r (lower (strip q))))) \<and>
         (\<forall>q. strip q \<noteq> [] \<and>
              (\<forall>(w, r) \<in> set (cache s).
                 \<not> structural_alias r (strip q) \<and> \<not> name_alias w r (lower (strip q)))
              \<longrightarrow> lookup_cache q s = None) \<and>
         (\<forall>q w r. (w, r) \<in> set (cache s) \<and>
              (structural_alias r (strip q) \<or> name_alias w r (lower (strip q)))
              \<longrightarrow> lookup_cache q s \<noteq> None)"
proof (intro conjI allI impI)
  fix a w assume "alias_cs s a = Some w"
  from wf_cs_Some[OF wf this]
  show "\<exists>r. map_of (cache s) w = Some r \<and> structural_alias r a"
    by (auto simp: structural_alias_iff)
next
  fix q r assume "lookup_cache q s = Some r"
  from lookup_Some[OF wf this]
  show "\<exists>w. map_of (cache s) w = Some r \<and>
            (structural_alias r (strip q) \<or> name_alias w r (lower (strip q)))"
    by (auto simp: structural_alias_iff name_alias_iff norm_name_def)
next
  fix q
  assume "strip q \<noteq> [] \<and>
      (\<forall>(w, r) \<in> set (cache s).
         \<not> structural_alias r (strip q) \<and> \<not> name_alias w r (lower (strip q)))"
  then show "lookup_cache q s = None"
    by (simp add: lookup_None_iff[OF wf] structural_alias_iff name_alias_iff norm_name_def)
next
  fix q w r
  assume h: "(w, r) \<in> set (cache s) \<and>
      (structural_alias r (strip q) \<or> name_alias w r (lower (strip q)))"
  have nb: "strip q \<noteq> []"
  proof
    assume blank: "strip q = []"
    with h have "[] \<in> set (cs_aliases r) \<or> [] \<in> norm_name ` set (ci_aliases w r)"
      by (auto simp: structural_alias_iff name_alias_iff norm_name_def lower_def)
    moreover have "[] \<notin> set (cs_aliases r)" using cs_aliases_nonempty by blast
    moreover have "[] \<notin> norm_name ` set (ci_aliases w r)"
      using ci_aliases_nonblank[OF wf_key_nonblank[OF wf]] h
      by (metis imageE norm_name_eq_Nil)
    ultimately show False by blast
  qed
  from h show "lookup_cache q s \<noteq> None"
    by (auto simp: lookup_None_iff[OF wf nb] structural_alias_iff name_alias_iff norm_name_def)
qed

theorem alias_matching_witness:
  "wf_state water_tool \<and>
   alias_cs water_tool ''H2O'' = Some ''water'' \<and>
   (\<exists>r. map_of (cache water_tool) ''water'' = Some r \<and> structural_alias r ''H2O'') \<and>
   lookup_cache ''WATER'' water_tool = Some water_record \<and>
   (\<exists>w. map_of (cache water_tool) w = Some water_record \<and>
        (structural_alias water_record (strip ''WATER'') \<or>
         name_alias w water_record (lower (strip ''WATER'')))) \<and>
   lookup_cache ''h2o'' water_tool = None \<and>
   lookup_cache '' OXIDANE '' water_tool \<noteq> None \<and>
   lookup_cache '' H2O'' water_tool \<noteq> None"
proof -
  note m = alias_matching[OF wf_water_tool]
  have l: "lookup_cache ''WATER'' water_tool = Some water_record" by code_simp
  from m l have 0: "\<exists>w. map_of (cache water_tool) w = Some water_record \<and>
        (structural_alias water_record (strip ''WATER'') \<or>
         name_alias w water_record (lower (strip ''WATER'')))"
    by blast
  have c: "cache water_tool = [(''water'', water_record)]" by code_simp
  have a: "alias_cs water_tool ''H2O'' = Some ''water''" by code_simp
  from m a have 1: "\<exists>r. map_of (cache water_tool) ''water'' = Some r \<and> structural_alias r ''H2O''"
    by blast
  have nb: "strip ''h2o'' \<noteq> []" by code_simp
  have n1: "\<not> structural_alias water_record (strip ''h2o'')" by code_simp
  have n2: "\<not> name_alias ''water'' water_record (lower (strip ''h2o''))" by code_simp
  have "\<forall>(w, r) \<in> set (cache water_tool).
          \<not> structural_alias r (strip ''h2o'') \<and> \<not> name_alias w r (lower (strip ''h2o''))"
    using n1 n2 by (simp add: c)
  with m nb have 2: "lookup_cache ''h2o'' water_tool = None" by blast
  have mem: "(''water'', water_record) \<in> set (cache water_tool)" by (simp add: c)
  have p1: "name_alias ''water'' water_record (lower (strip '' OXIDANE ''))" by code_simp
  have p2: "structural_alias water_record (strip '' H2O'')" by code_simp
  from m mem p1 have 3: "lookup_cache '' OXIDANE '' water_tool \<noteq> None" by blast
  from m mem p2 have 4: "lookup_cache '' H2O'' water_tool \<noteq> None" by blast
  from wf_water_tool a l 0 1 2 3 4 show ?thesis by simp
qed

text \<open>
  C6 as stated fails when the structural identifier was itself the query that created
  the entry: it is then the written key, a name alias, and \<^verbatim>\<open>"abc-123"\<close> matches the
  entry of \<^verbatim>\<open>"ABC-123"\<close> although \<^verbatim>\<open>"abc-123"\<close> is neither a written key nor in the
  case-sensitive table.
\<close>

theorem alias_matching_counterexample:
  "cache inchikey_tool = [(''ABC-123'', record_of_compound compound_a)] \<and>
   inchikey (record_of_compound compound_a) = Some ''ABC-123'' \<and>
   map_of (cache inchikey_tool) ''abc-123'' = None \<and>
   alias_cs inchikey_tool ''abc-123'' = None \<and>
   lookup_cache ''abc-123'' inchikey_tool = Some (record_of_compound compound_a) \<and>
   forward no_compounds ''abc-123'' (Some ''inchikey'') inchikey_tool =
     (Inr ''ABC-123'', inchikey_tool)"
proof -
  have l: "lookup_cache ''abc-123'' inchikey_tool = Some (record_of_compound compound_a)"
    by code_simp
  have c: "cache inchikey_tool = [(''ABC-123'', record_of_compound compound_a)]" by code_simp
  have k: "inchikey (record_of_compound compound_a) = Some ''ABC-123''" by code_simp
  have a: "alias_cs inchikey_tool ''abc-123'' = None" by code_simp
  have r: "render (record_of_compound compound_a) (default_format (Some ''inchikey'')) ''abc-123'' =
             Inr ''ABC-123''" by code_simp
  show ?thesis using l c k a by (simp add: forward_hit[OF l] r)
qed

subsection \<open>C3: an unknown output format\<close>

text \<open>
  C3. The format is checked only when a record is rendered. On a miss for which the
  fetch finds nothing, \<^const>\<open>forward\<close> returns the "no result" message for the unknown
  format \<^verbatim>\<open>"bogus"\<close> instead of raising, having called the fetch, stored the negative
  record and rewritten the file; on a miss for which the fetch finds a record, it raises
  only after the same effects.
\<close>

theorem invalid_format_after_miss:
  "''bogus'' \<noteq> ''json'' \<and> ''bogus'' \<notin> set field_names \<and>
   fst (forward no_compounds ''unobtainium999'' (Some ''bogus'') new_tool) =
     Inr ''No PubChem result found for: unobtainium999'' \<and>
   cache (snd (forward no_compounds ''unobtainium999'' (Some ''bogus'') new_tool)) =
     [(''unobtainium999'', negative_record)] \<and>
   cache_file (snd (forward no_compounds ''unobtainium999'' (Some ''bogus'') new_tool)) =
     FileJson [(''unobtainium999'', negative_record)] \<and>
   trace (snd (forward no_compounds ''unobtainium999'' (Some ''bogus'') new_tool)) =
     trace new_tool @
     [Fetch ''unobtainium999'', StoreSet ''unobtainium999'', Rebuild, FileWrite] \<and>
   fst (forward water_service ''water'' (Some ''bogus'') new_tool) = Inl format_error \<and>
   cache (snd (forward water_service ''water'' (Some ''bogus'') new_tool)) =
     [(''water'', water_record)] \<and>
   cache_file (snd (forward water_service ''water'' (Some ''bogus'') new_tool)) =
     FileJson [(''water'', water_record)] \<and>
   trace (snd (forward water_service ''water'' (Some ''bogus'') new_tool)) =
     trace new_tool @ [Fetch ''water'', StoreSet ''water'', Rebuild, FileWrite]"
  by code_simp

subsection \<open>C8: the type of the stored fields\<close>

text \<open>
  C8. \<^const>\<open>record_of_compound\<close> stores the \<^verbatim>\<open>cid\<close> attribute as it is: for a compound
  whose \<^verbatim>\<open>cid\<close> is the integer 962 the record inserted into the store, and written to the
  file, has the number 962 in its \<^verbatim>\<open>cid\<close> field, not a string.
\<close>

theorem fetched_cid_is_number:
  "c_cid water = PInt 962 \<and>
   fetch_from_pubchem water_service ''water'' = Some water_record \<and>
   cid water_record = PInt 962 \<and>
   map_of (cache water_tool) ''water'' = Some water_record \<and>
   cache_file water_tool = FileJson [(''water'', water_record)] \<and>
   json_val (cid water_record) = ''962''"
  by code_simp

end
